theory Spec2Isabelle
  imports Main "HOL-Library.Sublist" "HOL-Library.AList"
begin

section \<open>Python strings\<close>

text \<open>
  The module runs on Python 3, where the text read back from the \<open>StringIO\<close> is a
  \<open>str\<close>. A \<open>str\<close> is modelled as a \<open>string\<close> with one \<open>char\<close> per code point, so
  the model covers the texts whose code points are below 256. Dictionaries keep their
  insertion order, as they do since Python 3.7.
\<close>

definition LF :: char where
  "LF = CHR 0x0A"

definition CR :: char where
  "CR = CHR 0x0D"

text \<open>
  The line boundaries of \<open>str.splitlines\<close>: \<open>\n\<close>, \<open>\v\<close>, \<open>\f\<close>, \<open>\r\<close>, \<open>\x1c\<close>, \<open>\x1d\<close>,
  \<open>\x1e\<close> and \<open>\x85\<close> (and \<open>\r\n\<close>, read as one boundary).
\<close>

definition is_linebreak :: "char \<Rightarrow> bool" where
  "is_linebreak c =
     (c \<in> set [CHR 0x0A, CHR 0x0B, CHR 0x0C, CHR 0x0D, CHR 0x1C, CHR 0x1D, CHR 0x1E, CHR 0x85])"

text \<open>
  \<open>str.isspace\<close> on one character: \<open>\t\<close>, \<open>\n\<close>, \<open>\v\<close>, \<open>\f\<close>, \<open>\r\<close>, \<open>\x1c\<close> to \<open>\x1f\<close>, the
  space, \<open>\x85\<close> and \<open>\xa0\<close>.
\<close>

definition isspace :: "char \<Rightarrow> bool" where
  "isspace c =
     (c \<in> set [CHR 0x09, CHR 0x0A, CHR 0x0B, CHR 0x0C, CHR 0x0D, CHR 0x1C, CHR 0x1D, CHR 0x1E,
                CHR 0x1F, CHR 0x20, CHR 0x85, CHR 0xA0])"

text \<open>
  \<open>s.splitlines(keepends)\<close>, scanning \<open>s\<close> from the left with the current line in
  \<open>cur\<close>. A boundary closes the current line, also an empty one; the end of the text
  closes it only when it is not empty.
\<close>

fun splitlines_from :: "bool \<Rightarrow> string \<Rightarrow> string \<Rightarrow> string list" where
  "splitlines_from keepends cur [] = (if cur = [] then [] else [cur])"
| "splitlines_from keepends cur (c # cs) =
     (if c = CR \<and> cs \<noteq> [] \<and> hd cs = LF
      then (cur @ (if keepends then [CR, LF] else [])) # splitlines_from keepends [] (tl cs)
      else if is_linebreak c
      then (cur @ (if keepends then [c] else [])) # splitlines_from keepends [] cs
      else splitlines_from keepends (cur @ [c]) cs)"

definition splitlines :: "bool \<Rightarrow> string \<Rightarrow> string list" where
  "splitlines keepends s = splitlines_from keepends [] s"

text \<open>\<open>s.split()\<close>: the maximal runs of characters that are not whitespace.\<close>

fun split_from :: "string \<Rightarrow> string \<Rightarrow> string list" where
  "split_from cur [] = (if cur = [] then [] else [cur])"
| "split_from cur (c # cs) =
     (if isspace c
      then (if cur = [] then split_from [] cs else cur # split_from [] cs)
      else split_from (cur @ [c]) cs)"

definition str_split :: "string \<Rightarrow> string list" where
  "str_split s = split_from [] s"

text \<open>\<open>sep.join(xs)\<close>.\<close>

fun str_join :: "string \<Rightarrow> string list \<Rightarrow> string" where
  "str_join sep [] = []"
| "str_join sep [x] = x"
| "str_join sep (x # y # ys) = x @ sep @ str_join sep (y # ys)"

text \<open>\<open>sub in s\<close>: \<open>sub\<close> occurs in \<open>s\<close> as a contiguous piece.\<close>

fun contains :: "string \<Rightarrow> string \<Rightarrow> bool" where
  "contains sub [] = (sub = [])"
| "contains sub (c # cs) = (prefix sub (c # cs) \<or> contains sub cs)"

section \<open>The header and the rows of a report\<close>

text \<open>
  \<open>re.search(HEADER_LINE_REGEX, line)\<close> with
  \<open>HEADER_LINE_REGEX = r'ncalls|tottime|cumtime'\<close>: the pattern is an alternation of
  three literal words, so the search succeeds when one of them occurs in the line.
\<close>

definition header_line_search :: "string \<Rightarrow> bool" where
  "header_line_search line =
     (contains ''ncalls'' line \<or> contains ''tottime'' line \<or> contains ''cumtime'' line)"

text \<open>
  The loop of \<open>get_stats_header\<close> over the lines, with the variable \<open>header\<close>; the
  \<open>break\<close> returns the header built so far.
\<close>

fun header_loop :: "string list \<Rightarrow> string \<Rightarrow> string" where
  "header_loop [] header = header"
| "header_loop (line # lines) header =
     (if header_line_search line then header
      else header_loop lines (header @ line @ [LF]))"

definition get_stats_header :: "string \<Rightarrow> string" where
  "get_stats_header stats_str = header_loop (splitlines False stats_str) []"

text \<open>
  The loop of \<open>iter_stats_table_row\<close> with the flag \<open>in_table\<close>; the rows the generator
  yields are returned as a list, in the order they are yielded. The flag is set before
  the line is looked at, so the line that sets it is yielded too.
\<close>

fun rows_loop :: "string list \<Rightarrow> bool \<Rightarrow> string list list" where
  "rows_loop [] in_table = []"
| "rows_loop (line # lines) in_table =
     (let in_table' = (if header_line_search line then True else in_table);
          cols = str_split line
      in if in_table' \<and> cols \<noteq> []
         then (take 5 cols @ [str_join '' '' (drop 5 cols)]) # rows_loop lines in_table'
         else rows_loop lines in_table')"

definition iter_stats_table_row :: "string \<Rightarrow> string list list" where
  "iter_stats_table_row stats_str = rows_loop (splitlines False stats_str) False"

section \<open>The table\<close>

datatype error = IndexError

text \<open>\<open>'<%s>%s</%s>' % (col_el, col, col_el)\<close>\<close>

definition cell :: "string \<Rightarrow> string \<Rightarrow> string" where
  "cell col_el col = ''<'' @ col_el @ ''>'' @ col @ ''</'' @ col_el @ ''>''"

text \<open>The inner loop of \<open>format_stats_table\<close>, over the columns of one row.\<close>

fun cols_loop :: "string \<Rightarrow> string list \<Rightarrow> string \<Rightarrow> string" where
  "cols_loop col_el [] row_dom = row_dom"
| "cols_loop col_el (col # cols) row_dom = cols_loop col_el cols (row_dom @ cell col_el col)"

text \<open>
  The outer loop, with \<open>col_el\<close> and \<open>table_dom\<close>. The statement \<open>row += '</tr>'\<close> is on
  the list \<open>row\<close>, which it extends by the five characters of the tag; \<open>row_dom\<close> is
  appended as the inner loop left it.
\<close>

fun table_loop :: "string list list \<Rightarrow> string \<Rightarrow> string list \<Rightarrow> string list" where
  "table_loop [] col_el table_dom = table_dom"
| "table_loop (row # rows) col_el table_dom =
     (let row_dom = cols_loop col_el row ''<tr>'';
          row' = row @ map (\<lambda>c. [c]) ''</tr>''
      in table_loop rows ''td'' (table_dom @ [row_dom]))"

text \<open>
  \<open>format_stats_table\<close>: the three assignments by index follow the loop; reading
  \<open>table_dom[0]\<close> or \<open>table_dom[1]\<close> out of range raises \<open>IndexError\<close>.
\<close>

definition format_stats_table :: "string \<Rightarrow> error + string" where
  "format_stats_table stats_str =
     (let table_dom = table_loop (iter_stats_table_row stats_str) ''th'' [] in
      if length table_dom < 1 then Inl IndexError
      else
        let table_dom = table_dom[0 := ''<thead>'' @ table_dom ! 0 @ ''</thead>''] in
        if length table_dom < 2 then Inl IndexError
        else
          let table_dom = table_dom[1 := ''<tbody>'' @ table_dom ! 1];
              n = length table_dom - 1;
              table_dom = table_dom[n := table_dom ! n @ ''</tbody>'']
          in Inr (str_join [LF] table_dom))"

section \<open>Templates\<close>

text \<open>
  \<open>bottle.template\<close> renders \<open>{{ x }}\<close> as the value of \<open>x\<close> passed through the library's
  \<open>html_escape\<close>, and \<open>{{ !x }}\<close> as the value itself. \<open>html_escape\<close> is
  \<open>s.replace('&', '&amp;').replace('<', '&lt;').replace('>', '&gt;')\<close>
  \<open>.replace('"', '&quot;').replace("'", '&#039;')\<close>.
\<close>

text \<open>\<open>s.replace(c, r)\<close> for a pattern \<open>c\<close> of one character.\<close>

definition replace_char :: "char \<Rightarrow> string \<Rightarrow> string \<Rightarrow> string" where
  "replace_char c r s = concat (map (\<lambda>x. if x = c then r else [x]) s)"

definition html_escape :: "string \<Rightarrow> string" where
  "html_escape s =
     replace_char (CHR 0x27) ''&#039;''
       (replace_char (CHR 0x22) ''&quot;''
         (replace_char (CHR ''>'') ''&gt;''
           (replace_char (CHR ''<'') ''&lt;''
             (replace_char (CHR ''&'') ''&amp;'' s))))"


text \<open>\<open>bottle.template("<a href='{{ url }}'>{{ func_name }}</a>", url=..., func_name=...)\<close>\<close>

definition url_link_template :: "string \<Rightarrow> string \<Rightarrow> string" where
  "url_link_template url func_name =
     ''<a href='' @ [CHR 0x27] @ html_escape url @ [CHR 0x27] @ ''>''
       @ html_escape func_name @ ''</a>''"

text \<open>\<open>bottle.template("{{ prefix }}({{ !url_link }})\n", prefix=..., url_link=...)\<close>\<close>

definition line_template :: "string \<Rightarrow> string \<Rightarrow> string" where
  "line_template prefix_text url_link = html_escape prefix_text @ ''('' @ url_link @ '')'' @ [LF]"






section \<open>Links\<close>

definition FUNC_NAME_KEY :: string where
  "FUNC_NAME_KEY = ''func_name''"

definition IGNORE_FUNC_NAMES :: "string list" where
  "IGNORE_FUNC_NAMES = [''function'', '''']"

text \<open>
  The request's query, \<open>bottle.request.query\<close>, is the list of the key and value pairs
  of the query string, in their order; a key may occur more than once.
  \<open>dict(bottle.request.query)\<close> has every key once, at the place of its first
  occurrence, with the value of its last occurrence. A dictionary is an association
  list in insertion order, and \<open>query[key] = val\<close> is \<open>AList.update\<close>: the value is
  replaced in place, or the pair is added at the end.
\<close>

definition dict_of :: "(string \<times> string) list \<Rightarrow> (string \<times> string) list" where
  "dict_of request_query = foldl (\<lambda>d (k, v). AList.update k v d) [] request_query"

text \<open>\<open>bottle.request.query.get(key) or ''\<close>: the last value of the key, or the empty string.\<close>

definition query_get :: "(string \<times> string) list \<Rightarrow> string \<Rightarrow> string" where
  "query_get request_query key =
     (case map_of (rev request_query) key of None \<Rightarrow> [] | Some v \<Rightarrow> v)"

text \<open>The loop of \<open>get_updated_href\<close> over the keys of \<open>query\<close>, with the variable \<open>href\<close>.\<close>

fun href_loop :: "(string \<times> string) list \<Rightarrow> string \<Rightarrow> string" where
  "href_loop [] href = href"
| "href_loop ((k, v) # items) href = href_loop items (href @ k @ ''='' @ v @ ''&'')"

definition get_updated_href :: "(string \<times> string) list \<Rightarrow> string \<Rightarrow> string \<Rightarrow> string" where
  "get_updated_href request_query key val =
     (let query = AList.update key val (dict_of request_query)
      in butlast (href_loop query ''?''))"

text \<open>
  \<open>re.search(STATS_LINE_REGEX, line)\<close> with \<open>STATS_LINE_REGEX = r'(.*)\((.*)\)$'\<close>, as the
  two groups of the match. \<open>$\<close> matches at the end of the text and before a newline
  that ends the text, so the closing parenthesis is the last character of \<open>core\<close>;
  \<open>.\<close> matches every character but the newline, so the match lies in \<open>seg\<close>, the part
  of \<open>core\<close> after its last newline, and the search, which takes the leftmost start,
  begins it where \<open>seg\<close> begins. The first group is greedy: it runs to the last opening
  parenthesis before the closing one, and the second group is what lies between them.
\<close>

definition stats_line_search :: "string \<Rightarrow> (string \<times> string) option" where
  "stats_line_search line =
     (let core = (if line \<noteq> [] \<and> last line = LF then butlast line else line);
          seg = rev (takeWhile (\<lambda>c. c \<noteq> LF) (rev core))
      in if seg \<noteq> [] \<and> last seg = CHR '')'' \<and> CHR ''('' \<in> set (butlast seg)
         then let body = butlast seg
              in Some (rev (tl (dropWhile (\<lambda>c. c \<noteq> CHR ''('') (rev body))),
                       rev (takeWhile (\<lambda>c. c \<noteq> CHR ''('') (rev body)))
         else None)"

definition process_line :: "(string \<times> string) list \<Rightarrow> string \<Rightarrow> string" where
  "process_line request_query line =
     (case stats_line_search line of
        None \<Rightarrow> line
      | Some (prefix_text, func_name) \<Rightarrow>
          if func_name \<notin> set IGNORE_FUNC_NAMES
          then let url_link =
                     url_link_template
                       (get_updated_href request_query FUNC_NAME_KEY func_name) func_name
               in line_template prefix_text url_link
          else line)"

section \<open>The capture stream\<close>

text \<open>An \<open>io.StringIO\<close>: its text and its position.\<close>

record stringio =
  buf :: string
  pos :: nat

definition StringIO :: stringio where
  "StringIO = \<lparr>buf = [], pos = 0\<rparr>"

text \<open>
  \<open>stream.write(s)\<close> writes at the position, over what is there, and moves the position
  past what it wrote; a position beyond the end is reached by padding with \<open>\0\<close>.
\<close>

definition stream_write :: "string \<Rightarrow> stringio \<Rightarrow> stringio" where
  "stream_write s st =
     \<lparr>buf = take (pos st) (buf st) @ replicate (pos st - length (buf st)) (CHR 0x00)
             @ s @ drop (pos st + length s) (buf st),
      pos = pos st + length s\<rparr>"

definition getvalue :: "stringio \<Rightarrow> string" where
  "getvalue st = buf st"

definition seek :: "nat \<Rightarrow> stringio \<Rightarrow> stringio" where
  "seek n st = st\<lparr>pos := n\<rparr>"

text \<open>
  \<open>stream.truncate()\<close> cuts the text at the position. (The records of this theory have a
  \<open>truncate\<close> of their own, so the method is named \<open>stream_truncate\<close>.)
\<close>

definition stream_truncate :: "stringio \<Rightarrow> stringio" where
  "stream_truncate st = st\<lparr>buf := take (pos st) (buf st)\<rparr>"

definition read_stream :: "stringio \<Rightarrow> string \<times> stringio" where
  "read_stream st =
     (let value = getvalue st;
          st = seek 0 st;
          st = stream_truncate st
      in (value, st))"

definition read :: "(string \<times> string) list \<Rightarrow> stringio \<Rightarrow> string \<times> stringio" where
  "read request_query st =
     (let (output, st) = read_stream st;
          lines = splitlines True output
      in (concat (map (process_line request_query) lines), st))"

section \<open>The request handler\<close>

text \<open>
  The profiler backend, \<open>pstats.Stats\<close>, is outside the module: \<open>print_stats\<close>,
  \<open>print_callers\<close> and \<open>print_callees\<close> give the text it writes to the stream for a
  restriction.
\<close>

record backend =
  print_stats :: "string \<Rightarrow> string"
  print_callers :: "string \<Rightarrow> string"
  print_callees :: "string \<Rightarrow> string"

definition "show" :: "backend \<Rightarrow> string \<Rightarrow> stringio \<Rightarrow> stringio" where
  "show b restriction st = stream_write (print_stats b restriction) st"

definition show_callers :: "backend \<Rightarrow> string \<Rightarrow> stringio \<Rightarrow> stringio" where
  "show_callers b func_name st = stream_write (print_callers b func_name) st"

definition show_callees :: "backend \<Rightarrow> string \<Rightarrow> stringio \<Rightarrow> stringio" where
  "show_callees b func_name st = stream_write (print_callees b func_name) st"

text \<open>
  The first half of \<open>route_handler\<close>: a new \<open>Stats\<close>, with a new stream, and the reads
  of the three reports in the order of the source. The stream is returned as the last
  read leaves it.
\<close>

definition route_reports ::
  "backend \<Rightarrow> (string \<times> string) list \<Rightarrow> string \<times> string \<times> string \<times> stringio" where
  "route_reports b request_query =
     (let st = StringIO;
          func_name = query_get request_query FUNC_NAME_KEY;
          (callers, st) =
             (if func_name \<noteq> [] then read request_query (show_callers b func_name st)
              else ([], st));
          (callees, st) =
             (if func_name \<noteq> [] then read request_query (show_callees b func_name st)
              else ([], st));
          (stats_str, st) = read request_query (show b func_name st)
      in (callers, callees, stats_str, st))"


section \<open>Notions the properties are stated with\<close>

text \<open>The lines of a header, each followed by a newline.\<close>

definition header_text :: "string list \<Rightarrow> string" where
  "header_text ls = concat (map (\<lambda>l. l @ [LF]) ls)"

text \<open>The lines before the first line that has the signature \<open>P\<close>.\<close>

definition lines_before :: "(string \<Rightarrow> bool) \<Rightarrow> string list \<Rightarrow> string list" where
  "lines_before P ls = takeWhile (\<lambda>l. \<not> P l) ls"

text \<open>The signature that asks for all three words on the line.\<close>

definition signature_all_three :: "string \<Rightarrow> bool" where
  "signature_all_three line =
     (contains ''ncalls'' line \<and> contains ''tottime'' line \<and> contains ''cumtime'' line)"

text \<open>A blank line has whitespace only; the row of a line that is not blank.\<close>

definition blank :: "string \<Rightarrow> bool" where
  "blank line = list_all isspace line"

definition nonblank_lines :: "string list \<Rightarrow> string list" where
  "nonblank_lines ls = filter (\<lambda>l. \<not> blank l) ls"

definition row_of_line :: "string \<Rightarrow> string list" where
  "row_of_line line = take 5 (str_split line) @ [str_join '' '' (drop 5 (str_split line))]"

text \<open>The markup of one row: the opening tag and one cell for each column.\<close>

definition row_markup :: "string \<Rightarrow> string list \<Rightarrow> string" where
  "row_markup col_el row = ''<tr>'' @ concat (map (cell col_el) row)"

text \<open>One \<open>key=value\<close> pair of a link.\<close>

definition pair_text :: "string \<times> string \<Rightarrow> string" where
  "pair_text p = fst p @ ''='' @ snd p"

text \<open>What \<open>read\<close> makes of a text the backend wrote: every line through \<open>process_line\<close>.\<close>

definition processed :: "(string \<times> string) list \<Rightarrow> string \<Rightarrow> string" where
  "processed request_query text =
     concat (map (process_line request_query) (splitlines True text))"

text \<open>
  Reports for the examples: the aggregate report that \<open>pstats\<close> prints for one function,
  the one it prints when the restriction selects no function, and a backend whose
  callers report is empty while its callees report is not.
\<close>

definition title_line :: string where
  "title_line = ''   ncalls  tottime  percall  cumtime  percall filename:lineno(function)''"

definition example_report :: string where
  "example_report =
     ''         1 function calls in 0.000 seconds\<newline>''
     @ ''\<newline>''
     @ title_line @ ''\<newline>''
     @ ''        1    0.000    0.000    0.000    0.000 m.py:1(foo)\<newline>''
     @ ''\<newline>''"

definition empty_report :: string where
  "empty_report = ''         3 function calls in 0.000 seconds\<newline>\<newline>''"

definition example_backend :: backend where
  "example_backend =
     \<lparr>print_stats = (\<lambda>restriction. example_report),
      print_callers = (\<lambda>func_name. []),
      print_callees = (\<lambda>func_name. ''m.py:1(foo)  ->  1  0.000  0.000  m.py:2(bar)\<newline>'')\<rparr>"

text \<open>
  A report whose second line has one of the three words only, a report with a line of
  two tokens after the title, and the title line followed by one data line.
\<close>

definition short_header_report :: string where
  "short_header_report = ''total\<newline>ncalls only\<newline>rest\<newline>''"

definition short_row_report :: string where
  "short_row_report = ''ncalls\<newline>foo bar\<newline>''"

definition title_and_row :: string where
  "title_and_row =
     title_line @ ''\<newline>''
     @ ''12345    0.020    0.000    0.045    0.000 module.py:10(compute)\<newline>''"



text \<open>
  A request for the focus function \<open>foo\<close>, and what \<open>read\<close> returns for the callees report
  and the aggregate report of the example backend in that request.
\<close>

definition example_query :: "(string \<times> string) list" where
  "example_query = [(''func_name'', ''foo'')]"




section \<open>The loops in closed form\<close>

lemma contains_iff_sublist: "contains sub s = sublist sub s"
proof (induction s)
  case Nil
  then show ?case by simp
next
  case (Cons c cs)
  then show ?case by (cases sub) (simp_all add: sublist_code)
qed

lemma header_loop_eq:
  "header_loop ls h = h @ header_text (takeWhile (\<lambda>l. \<not> header_line_search l) ls)"
  by (induction ls arbitrary: h) (simp_all add: header_text_def)

lemma split_from_nonempty: "cur \<noteq> [] \<Longrightarrow> split_from cur s \<noteq> []"
  by (induction s arbitrary: cur) simp_all

lemma split_from_empty_iff: "split_from [] s = [] \<longleftrightarrow> list_all isspace s"
  by (induction s) (simp_all add: split_from_nonempty)

lemma str_split_empty_iff: "str_split line = [] \<longleftrightarrow> blank line"
  by (simp add: str_split_def blank_def split_from_empty_iff)

lemma rows_loop_True:
  "rows_loop ls True = map row_of_line (filter (\<lambda>l. \<not> blank l) ls)"
  by (induction ls) (simp_all add: Let_def row_of_line_def str_split_empty_iff)

lemma rows_loop_False:
  "rows_loop ls False = rows_loop (dropWhile (\<lambda>l. \<not> header_line_search l) ls) True"
  by (induction ls) (simp_all add: Let_def)

lemma cols_loop_eq: "cols_loop col_el cols acc = acc @ concat (map (cell col_el) cols)"
  by (induction cols arbitrary: acc) simp_all

lemma table_loop_td:
  "table_loop rows ''td'' acc = acc @ map (row_markup ''td'') rows"
  by (induction rows arbitrary: acc) (simp_all add: cols_loop_eq row_markup_def)

lemma table_loop_Cons:
  "table_loop (row # rows) col_el acc
     = acc @ row_markup col_el row # map (row_markup ''td'') rows"
  by (simp add: cols_loop_eq row_markup_def table_loop_td)

lemma update_last:
  "xs \<noteq> [] \<Longrightarrow> xs[length xs - 1 := xs ! (length xs - 1) @ t] = butlast xs @ [last xs @ t]"
  by (cases xs rule: rev_cases) (simp_all add: nth_append)

lemma format_stats_table_short:
  "length (iter_stats_table_row s) < 2 \<Longrightarrow> format_stats_table s = Inl IndexError"
proof (cases "iter_stats_table_row s")
  case Nil
  then show ?thesis by (simp add: format_stats_table_def)
next
  case (Cons r rs)
  assume "length (iter_stats_table_row s) < 2"
  with Cons have "rs = []" by simp
  with Cons show ?thesis by (simp add: format_stats_table_def table_loop_Cons)
qed

section \<open>Escaping and the search for the function reference\<close>








lemma split_at_last:
  assumes "c \<in> set body"
  shows "body = rev (tl (dropWhile (\<lambda>x. x \<noteq> c) (rev body))) @ c # rev (takeWhile (\<lambda>x. x \<noteq> c) (rev body))"
proof -
  let ?P = "\<lambda>x. x \<noteq> c"
  from assms have "dropWhile ?P (rev body) \<noteq> []"
    by (auto simp: dropWhile_eq_Nil_conv)
  moreover have "\<not> ?P (hd (dropWhile ?P (rev body)))"
    using \<open>dropWhile ?P (rev body) \<noteq> []\<close> by (rule hd_dropWhile)
  ultimately have "dropWhile ?P (rev body) = c # tl (dropWhile ?P (rev body))"
    by (cases "dropWhile ?P (rev body)") simp_all
  then have "rev body = takeWhile ?P (rev body) @ c # tl (dropWhile ?P (rev body))"
    by (metis takeWhile_dropWhile_id)
  then have "rev (rev body) = rev (takeWhile ?P (rev body) @ c # tl (dropWhile ?P (rev body)))"
    by (rule arg_cong)
  then show ?thesis by simp
qed

lemma stats_line_search_Some:
  assumes "stats_line_search line = Some (pre, name)"
  shows "\<exists>before nl. line = before @ pre @ ''('' @ name @ '')'' @ nl
           \<and> (nl = [] \<or> nl = [LF])
           \<and> LF \<notin> set pre \<and> LF \<notin> set name \<and> CHR ''('' \<notin> set name"
proof -
  define core where "core = (if line \<noteq> [] \<and> last line = LF then butlast line else line)"
  define seg where "seg = rev (takeWhile (\<lambda>c. c \<noteq> LF) (rev core))"
  define before where "before = rev (dropWhile (\<lambda>c. c \<noteq> LF) (rev core))"
  define nl where "nl = (if line \<noteq> [] \<and> last line = LF then [LF] else [])"
  define body where "body = butlast seg"
  from assms have cond: "seg \<noteq> []" "last seg = CHR '')''" "CHR ''('' \<in> set body"
    and pre: "pre = rev (tl (dropWhile (\<lambda>c. c \<noteq> CHR ''('') (rev body)))"
    and name: "name = rev (takeWhile (\<lambda>c. c \<noteq> CHR ''('') (rev body))"
    unfolding stats_line_search_def core_def[symmetric] Let_def seg_def[symmetric] body_def[symmetric]
    by (simp_all split: if_splits)
  have line: "line = core @ nl"
  proof (cases "line \<noteq> [] \<and> last line = LF")
    case True
    then have "butlast line @ [LF] = line"
      using append_butlast_last_id [of line] by simp
    with True show ?thesis
      unfolding core_def nl_def by simp
  next
    case False
    then show ?thesis
      unfolding core_def nl_def by auto
  qed
  have core: "core = before @ seg"
    unfolding before_def seg_def
    by (metis rev_append rev_rev_ident takeWhile_dropWhile_id)
  have seg: "seg = body @ '')''"
    using cond(1,2) unfolding body_def by (metis append_butlast_last_id)
  have body: "body = pre @ CHR ''('' # name"
    unfolding pre name using cond(3) by (rule split_at_last)
  have "LF \<notin> set seg"
    unfolding seg_def using set_takeWhileD by fastforce
  then have noLF: "LF \<notin> set pre" "LF \<notin> set name"
    unfolding seg body by simp_all
  have noparen: "CHR ''('' \<notin> set name"
    unfolding name using set_takeWhileD by fastforce
  have "line = before @ pre @ ''('' @ name @ '')'' @ nl"
    unfolding line core seg body by simp
  moreover have "nl = [] \<or> nl = [LF]"
    unfolding nl_def by simp
  ultimately show ?thesis
    using noLF noparen by blast
qed

section \<open>The link target in closed form\<close>

lemma href_loop_eq:
  "href_loop items href = href @ concat (map (\<lambda>p. pair_text p @ ''&'') items)"
  by (induction items href rule: href_loop.induct) (simp_all add: pair_text_def)

lemma butlast_pairs:
  "items \<noteq> [] \<Longrightarrow>
     butlast (concat (map (\<lambda>p. pair_text p @ ''&'') items)) = str_join ''&'' (map pair_text items)"
proof (induction items)
  case Nil
  then show ?case by simp
next
  case (Cons p items)
  show ?case
  proof (cases items)
    case Nil
    then show ?thesis by (simp add: butlast_append)
  next
    case (Cons q rest)
    with Cons.IH have "butlast (concat (map (\<lambda>p. pair_text p @ ''&'') items))
        = str_join ''&'' (map pair_text items)" by simp
    with Cons show ?thesis by (simp add: butlast_append)
  qed
qed

lemma sublist_prepend: "sublist xs ys \<Longrightarrow> sublist xs (ps @ ys)"
proof -
  assume "sublist xs ys"
  then obtain a b where "ys = a @ xs @ b"
    by (auto simp: sublist_def)
  then have "ps @ ys = (ps @ a) @ xs @ b" by simp
  then show ?thesis
    unfolding sublist_def by blast
qed

lemma get_updated_href_eq:
  "get_updated_href q key val
     = ''?'' @ str_join ''&'' (map pair_text (AList.update key val (dict_of q)))"
proof -
  let ?d = "AList.update key val (dict_of q)"
  have ne: "?d \<noteq> []" by simp
  then have "concat (map (\<lambda>p. pair_text p @ ''&'') ?d) \<noteq> []"
    by (cases ?d) simp_all
  then have "butlast (''?'' @ concat (map (\<lambda>p. pair_text p @ ''&'') ?d))
      = ''?'' @ butlast (concat (map (\<lambda>p. pair_text p @ ''&'') ?d))"
    by (simp only: butlast_append if_False)
  also have "\<dots> = ''?'' @ str_join ''&'' (map pair_text ?d)"
    using butlast_pairs [OF ne] by simp
  finally show ?thesis
    unfolding get_updated_href_def Let_def href_loop_eq .
qed

lemma foldl_update_distinct:
  "distinct (map fst d) \<Longrightarrow>
     distinct (map fst (foldl (\<lambda>d (k, v). AList.update k v d) d q))"
  by (induction q arbitrary: d) (simp_all add: distinct_update split: prod.splits)

lemma dict_of_distinct: "distinct (map fst (dict_of q))"
  by (simp add: dict_of_def foldl_update_distinct)

lemma foldl_update_map_of:
  "map_of (foldl (\<lambda>d (k, v). AList.update k v d) d q) = map_of d ++ map_of (rev q)"
proof (induction q arbitrary: d)
  case Nil
  then show ?case by simp
next
  case (Cons p q)
  obtain k v where p: "p = (k, v)" by (cases p)
  have "map_of (AList.update k v d) ++ map_of (rev q) = map_of d ++ (map_of (rev q @ [(k, v)]))"
    by (simp add: update_conv' map_add_upd_left fun_eq_iff map_add_def split: option.splits)
  with Cons show ?case by (simp add: p)
qed

lemma dict_of_map_of: "map_of (dict_of q) = map_of (rev q)"
  by (simp add: dict_of_def foldl_update_map_of)

lemma pair_in_join:
  "p \<in> set items \<Longrightarrow> sublist (pair_text p) (str_join ''&'' (map pair_text items))"
proof (induction items)
  case Nil
  then show ?case by simp
next
  case (Cons a items)
  show ?case
  proof (cases items)
    case Nil
    with Cons.prems show ?thesis by simp
  next
    case (Cons b rest)
    show ?thesis
    proof (cases "p = a")
      case True
      then show ?thesis using Cons by (simp add: sublist_append_rightI)
    next
      case False
      with Cons.prems Cons.IH have "sublist (pair_text p) (str_join ''&'' (map pair_text items))"
        by simp
      then have "sublist (pair_text p) ((pair_text a @ ''&'') @ str_join ''&'' (map pair_text items))"
        by (rule sublist_prepend)
      with Cons show ?thesis by simp
    qed
  qed
qed

lemma get_updated_href_contains:
  assumes "p \<in> set (AList.update key val (dict_of q))"
  shows "sublist (pair_text p) (get_updated_href q key val)"
proof -
  from assms have "sublist (pair_text p)
      (str_join ''&'' (map pair_text (AList.update key val (dict_of q))))"
    by (rule pair_in_join)
  then show ?thesis
    unfolding get_updated_href_eq by (rule sublist_prepend)
qed

lemma update_map_of: "map_of (AList.update key val (dict_of q)) = (map_of (rev q))(key \<mapsto> val)"
  by (simp add: update_conv' dict_of_map_of)

lemma get_updated_href_own: "sublist (key @ ''='' @ val) (get_updated_href q key val)"
proof -
  have "map_of (AList.update key val (dict_of q)) key = Some val"
    unfolding update_map_of by simp
  then have "(key, val) \<in> set (AList.update key val (dict_of q))"
    by (rule map_of_SomeD)
  then have "sublist (pair_text (key, val)) (get_updated_href q key val)"
    by (rule get_updated_href_contains)
  then show ?thesis by (simp add: pair_text_def)
qed

section \<open>The example reports, and the end of a row\<close>

lemma example_lines:
  "splitlines False example_report =
     [''         1 function calls in 0.000 seconds'', [], title_line,
      ''        1    0.000    0.000    0.000    0.000 m.py:1(foo)'', []]"
  by (simp add: example_report_def title_line_def splitlines_def is_linebreak_def CR_def LF_def)

lemma title_row:
  "row_of_line title_line =
     [''ncalls'', ''tottime'', ''percall'', ''cumtime'', ''percall'', ''filename:lineno(function)'']"
  by (simp add: row_of_line_def title_line_def str_split_def isspace_def)

lemma example_rows:
  "iter_stats_table_row example_report =
     [[''ncalls'', ''tottime'', ''percall'', ''cumtime'', ''percall'', ''filename:lineno(function)''],
      [''1'', ''0.000'', ''0.000'', ''0.000'', ''0.000'', ''m.py:1(foo)'']]"
  unfolding iter_stats_table_row_def example_lines
  by (simp add: title_line_def header_line_search_def str_split_def isspace_def)

lemma rows_nonempty: "row \<in> set (rows_loop ls b) \<Longrightarrow> row \<noteq> []"
  by (induction ls arbitrary: b) (auto simp: Let_def split: if_splits)

lemma row_markup_end:
  assumes "row \<noteq> []"
  shows "\<exists>front. row_markup col_el row = front @ col_el @ ''>''"
proof -
  from assms obtain cols col where row: "row = cols @ [col]"
    by (cases row rule: rev_cases) auto
  have "row_markup col_el row
      = (''<tr>'' @ concat (map (cell col_el) cols) @ ''<'' @ col_el @ ''>'' @ col @ ''</'') @ col_el @ ''>''"
    by (simp add: row row_markup_def cell_def)
  then show ?thesis by blast
qed

lemma no_closing_tr:
  assumes "row \<noteq> []" and el: "col_el = ''th'' \<or> col_el = ''td''"
  shows "\<not> suffix ''</tr>'' (row_markup col_el row)"
proof
  assume "suffix ''</tr>'' (row_markup col_el row)"
  then obtain p where p: "row_markup col_el row = p @ ''</tr>''"
    by (auto simp: suffix_def)
  from row_markup_end [OF assms(1)] obtain front where "row_markup col_el row = front @ col_el @ ''>''"
    by blast
  from p \<open>row_markup col_el row = front @ col_el @ ''>''\<close> have "p @ ''</tr>'' = front @ col_el @ ''>''"
    by simp
  with el show False
    by (auto simp: append_eq_append_conv2 Cons_eq_append_conv append_eq_Cons_conv)
qed

lemmas eval_defs = splitlines_def is_linebreak_def CR_def LF_def header_line_search_def
  str_split_def isspace_def

lemma header_line_not_blank: "header_line_search line \<Longrightarrow> \<not> blank line"
proof -
  assume "header_line_search line"
  then consider "sublist ''ncalls'' line" | "sublist ''tottime'' line" | "sublist ''cumtime'' line"
    by (auto simp: header_line_search_def contains_iff_sublist)
  then show ?thesis
  proof cases
    case 1
    then obtain a b where "line = a @ ''ncalls'' @ b" by (auto simp: sublist_def)
    then show ?thesis by (simp add: blank_def isspace_def)
  next
    case 2
    then obtain a b where "line = a @ ''tottime'' @ b" by (auto simp: sublist_def)
    then show ?thesis by (simp add: blank_def isspace_def)
  next
    case 3
    then obtain a b where "line = a @ ''cumtime'' @ b" by (auto simp: sublist_def)
    then show ?thesis by (simp add: blank_def isspace_def)
  qed
qed

lemma get_stats_header_eq:
  "get_stats_header s = header_text (lines_before header_line_search (splitlines False s))"
  by (simp add: get_stats_header_def header_loop_eq lines_before_def header_text_def)

lemma iter_stats_table_row_eq:
  "iter_stats_table_row s =
     map row_of_line (nonblank_lines
       (dropWhile (\<lambda>l. \<not> header_line_search l) (splitlines False s)))"
  by (simp add: iter_stats_table_row_def rows_loop_False rows_loop_True nonblank_lines_def)

section \<open>The stream and the reports of a request\<close>

lemma read_stream_eq: "read_stream st = (buf st, StringIO)"
  by (simp add: read_stream_def getvalue_def seek_def stream_truncate_def StringIO_def)

lemma write_new: "stream_write text StringIO = \<lparr>buf = text, pos = length text\<rparr>"
  by (simp add: stream_write_def StringIO_def)

lemma read_after_write: "read q (stream_write text StringIO) = (processed q text, StringIO)"
  by (simp add: read_def read_stream_eq write_new processed_def)

lemma route_reports_eq:
  "route_reports b q =
     (if query_get q FUNC_NAME_KEY \<noteq> []
      then processed q (print_callers b (query_get q FUNC_NAME_KEY)) else [],
      if query_get q FUNC_NAME_KEY \<noteq> []
      then processed q (print_callees b (query_get q FUNC_NAME_KEY)) else [],
      processed q (print_stats b (query_get q FUNC_NAME_KEY)),
      StringIO)"
  by (simp add: route_reports_def show_def show_callers_def show_callees_def read_after_write
      Let_def)









section \<open>The properties of the specification\<close>

text \<open>
  C10. In the fragment that \<open>format_stats_table\<close> returns for a report with two or more
  rows, the markup of every row is \<open><tr>\<close> followed by one cell for each column, and no row
  ends with a closing \<open></tr>\<close>; the cells of the first row are \<open>th\<close> elements and the
  cells of every later row are \<open>td\<close> elements. The first row stands between \<open><thead>\<close>
  and \<open></thead>\<close>, \<open><tbody>\<close> opens before the second row and \<open></tbody>\<close> closes
  after the last, and the rows are joined by newlines.
\<close>

theorem format_stats_table_two_rows:
  assumes "iter_stats_table_row s = r0 # r1 # rs"
  shows "format_stats_table s =
     Inr (str_join [LF]
       ((''<thead>'' @ row_markup ''th'' r0 @ ''</thead>'')
         # butlast ((''<tbody>'' @ row_markup ''td'' r1) # map (row_markup ''td'') rs)
         @ [last ((''<tbody>'' @ row_markup ''td'' r1) # map (row_markup ''td'') rs) @ ''</tbody>'']))
     \<and> \<not> suffix ''</tr>'' (row_markup ''th'' r0)
     \<and> list_all (\<lambda>r. \<not> suffix ''</tr>'' (row_markup ''td'' r)) (r1 # rs)"
proof -
  let ?B = "(''<tbody>'' @ row_markup ''td'' r1) # map (row_markup ''td'') rs"
  have loop: "table_loop (iter_stats_table_row s) ''th'' []
      = row_markup ''th'' r0 # row_markup ''td'' r1 # map (row_markup ''td'') rs"
    unfolding assms by (simp add: table_loop_Cons del: table_loop.simps)
  have "?B[length ?B - 1 := ?B ! (length ?B - 1) @ ''</tbody>''] = butlast ?B @ [last ?B @ ''</tbody>'']"
    by (rule update_last) simp
  then have table: "format_stats_table s =
     Inr (str_join [LF] ((''<thead>'' @ row_markup ''th'' r0 @ ''</thead>'')
         # butlast ?B @ [last ?B @ ''</tbody>'']))"
    unfolding format_stats_table_def loop by (simp add: Let_def)
  have ne: "\<And>r. r \<in> set (r0 # r1 # rs) \<Longrightarrow> r \<noteq> []"
    using rows_nonempty [of _ "splitlines False s" False] assms
    by (simp add: iter_stats_table_row_def)
  have th: "\<not> suffix ''</tr>'' (row_markup ''th'' r0)"
    by (rule no_closing_tr) (simp_all add: ne)
  have td: "list_all (\<lambda>r. \<not> suffix ''</tr>'' (row_markup ''td'' r)) (r1 # rs)"
    unfolding list_all_iff
  proof
    fix r assume "r \<in> set (r1 # rs)"
    then have "r \<noteq> []" using ne by simp
    then show "\<not> suffix ''</tr>'' (row_markup ''td'' r)"
      by (rule no_closing_tr) simp
  qed
  from table th td show ?thesis by blast
qed

text \<open>The table of the example report, which has the title row and one data row.\<close>

theorem format_stats_table_two_rows_witness:
  "format_stats_table example_report =
     Inr (''<thead><tr><th>ncalls</th><th>tottime</th><th>percall</th><th>cumtime</th><th>percall</th><th>filename:lineno(function)</th></thead>''
          @ [LF]
          @ ''<tbody><tr><td>1</td><td>0.000</td><td>0.000</td><td>0.000</td><td>0.000</td><td>m.py:1(foo)</td></tbody>'')"
  using format_stats_table_two_rows [OF example_rows]
  by (simp add: row_markup_def cell_def)

text \<open>
  C1. For a report with no row, and for a report with one row, \<open>format_stats_table\<close>
  does not return a fragment: it raises \<open>IndexError\<close> at \<open>table_dom[0]\<close> and at
  \<open>table_dom[1]\<close>. The first report is what the backend prints when the restriction
  selects no function; the second is the title line alone.
\<close>

theorem format_stats_table_no_rows:
  "iter_stats_table_row empty_report = []
   \<and> format_stats_table empty_report = Inl IndexError
   \<and> iter_stats_table_row title_line = [row_of_line title_line]
   \<and> format_stats_table title_line = Inl IndexError"
proof -
  have e: "iter_stats_table_row empty_report = []"
    by (simp add: iter_stats_table_row_def empty_report_def splitlines_def is_linebreak_def
        CR_def LF_def header_line_search_def str_split_def isspace_def)
  have t: "iter_stats_table_row title_line = [row_of_line title_line]"
    by (simp add: iter_stats_table_row_def row_of_line_def title_line_def splitlines_def
        is_linebreak_def CR_def LF_def header_line_search_def str_split_def isspace_def)
  from e have "format_stats_table empty_report = Inl IndexError"
    by (simp add: format_stats_table_def)
  moreover from t have "format_stats_table title_line = Inl IndexError"
    by (simp add: format_stats_table_def)
  ultimately show ?thesis using e t by blast
qed

text \<open>
  C2, as the code has it. \<open>get_stats_header\<close> returns the lines before the first line in
  which at least one of \<open>ncalls\<close>, \<open>tottime\<close> and \<open>cumtime\<close> occurs, each line followed
  by a newline; when no line has one of them it returns all the lines. A line with one
  or two of the words ends the header.
\<close>

theorem get_stats_header_any_of:
  "get_stats_header s = header_text (lines_before header_line_search (splitlines False s))
   \<and> header_line_search line
        = (sublist ''ncalls'' line \<or> sublist ''tottime'' line \<or> sublist ''cumtime'' line)"
  by (simp add: get_stats_header_eq header_line_search_def contains_iff_sublist)

text \<open>
  C2 as it is stated fails: the second line of this report has \<open>ncalls\<close> and neither of
  the other two words, and the header ends before it, while the lines before the first
  line with all three words are the whole report.
\<close>

theorem get_stats_header_all_three_counterexample:
  "splitlines False short_header_report = [''total'', ''ncalls only'', ''rest'']
   \<and> \<not> signature_all_three ''ncalls only''
   \<and> get_stats_header short_header_report = ''total\<newline>''
   \<and> header_text (lines_before signature_all_three (splitlines False short_header_report))
        = short_header_report
   \<and> get_stats_header short_header_report
        \<noteq> header_text (lines_before signature_all_three (splitlines False short_header_report))"
  by (simp add: short_header_report_def get_stats_header_def header_text_def lines_before_def
      signature_all_three_def eval_defs)

text \<open>
  C3, as the code has it. When the header line, the first line in which one of the three
  words occurs, is line \<open>k\<close> of the report, \<open>get_stats_header\<close> returns the lines \<open>0\<close> to
  \<open>k - 1\<close>, each followed by a newline, and \<open>iter_stats_table_row\<close> yields the row of the
  header line first and then one row for each line after line \<open>k\<close> that is not blank.
\<close>

theorem header_and_rows_at_k:
  assumes k: "k < length (splitlines False s)"
    and at_k: "header_line_search (splitlines False s ! k)"
    and first: "\<forall>j<k. \<not> header_line_search (splitlines False s ! j)"
  shows "get_stats_header s = header_text (take k (splitlines False s))
     \<and> iter_stats_table_row s
         = row_of_line (splitlines False s ! k)
           # map row_of_line (nonblank_lines (drop (Suc k) (splitlines False s)))"
proof -
  let ?ls = "splitlines False s"
  let ?P = "\<lambda>l. \<not> header_line_search l"
  have tw: "takeWhile ?P ?ls = take k ?ls"
    using k at_k first by (intro takeWhile_eq_take_P_nth) auto
  then have "length (takeWhile ?P ?ls) = k"
    using k by simp
  then have dw: "dropWhile ?P ?ls = drop k ?ls"
    by (simp add: dropWhile_eq_drop)
  have "drop k ?ls = ?ls ! k # drop (Suc k) ?ls"
    using k by (simp add: Cons_nth_drop_Suc)
  moreover have "\<not> blank (?ls ! k)"
    using at_k by (rule header_line_not_blank)
  ultimately have "nonblank_lines (drop k ?ls) = ?ls ! k # nonblank_lines (drop (Suc k) ?ls)"
    by (simp add: nonblank_lines_def)
  then have rows: "iter_stats_table_row s
      = row_of_line (?ls ! k) # map row_of_line (nonblank_lines (drop (Suc k) ?ls))"
    by (simp add: iter_stats_table_row_eq dw)
  have "get_stats_header s = header_text (take k ?ls)"
    by (simp add: get_stats_header_eq lines_before_def tw)
  with rows show ?thesis by blast
qed

text \<open>The example report has its title at line 2, after the summary line and an empty line.\<close>

theorem header_and_rows_at_k_witness:
  "2 < length (splitlines False example_report)
   \<and> header_line_search (splitlines False example_report ! 2)
   \<and> get_stats_header example_report = ''         1 function calls in 0.000 seconds\<newline>\<newline>''
   \<and> iter_stats_table_row example_report
       = [[''ncalls'', ''tottime'', ''percall'', ''cumtime'', ''percall'', ''filename:lineno(function)''],
          [''1'', ''0.000'', ''0.000'', ''0.000'', ''0.000'', ''m.py:1(foo)'']]"
proof -
  have k: "2 < length (splitlines False example_report)"
    by (simp add: example_lines)
  have at_k: "header_line_search (splitlines False example_report ! 2)"
    by (simp add: example_lines title_line_def header_line_search_def)
  have first: "\<forall>j<2. \<not> header_line_search (splitlines False example_report ! j)"
  proof (intro allI impI)
    fix j :: nat assume "j < 2"
    then have "j = 0 \<or> j = 1" by auto
    then show "\<not> header_line_search (splitlines False example_report ! j)"
      by (auto simp: example_lines header_line_search_def)
  qed
  from header_and_rows_at_k [OF k at_k first] k at_k show ?thesis
    by (simp add: example_lines example_rows header_text_def LF_def)
qed

text \<open>
  C3 as it is stated fails: the title line is line 0 of this report and one line that is
  not blank follows it, and \<open>iter_stats_table_row\<close> yields two rows, the first of them made
  from the title line.
\<close>

theorem iter_stats_table_row_header_row_counterexample:
  "header_line_search (splitlines False title_and_row ! 0)
   \<and> nonblank_lines (drop (Suc 0) (splitlines False title_and_row))
       = [''12345    0.020    0.000    0.045    0.000 module.py:10(compute)'']
   \<and> iter_stats_table_row title_and_row
       = [[''ncalls'', ''tottime'', ''percall'', ''cumtime'', ''percall'', ''filename:lineno(function)''],
          [''12345'', ''0.020'', ''0.000'', ''0.045'', ''0.000'', ''module.py:10(compute)'']]
   \<and> iter_stats_table_row title_and_row
       \<noteq> map row_of_line (nonblank_lines (drop (Suc 0) (splitlines False title_and_row)))"
  by (simp add: title_and_row_def title_line_def iter_stats_table_row_def nonblank_lines_def
      blank_def row_of_line_def eval_defs)

text \<open>
  C5, as the code has it. Every row that \<open>iter_stats_table_row\<close> yields comes from a line
  of the report with at least one token: the row is the first five tokens of the line, or
  all of them when there are fewer, followed by one field that joins the remaining tokens
  with single spaces. A line of \<open>n\<close> tokens gives \<open>min 5 n + 1\<close> fields, which is six when
  the line has five tokens or more.
\<close>

theorem iter_stats_table_row_fields:
  assumes "row \<in> set (iter_stats_table_row s)"
  shows "\<exists>line \<in> set (splitlines False s).
           str_split line \<noteq> []
         \<and> row = take 5 (str_split line) @ [str_join '' '' (drop 5 (str_split line))]
         \<and> length row = min 5 (length (str_split line)) + 1
         \<and> (5 \<le> length (str_split line) \<longrightarrow> length row = 6)"
proof -
  from assms obtain line
    where line: "line \<in> set (nonblank_lines (dropWhile (\<lambda>l. \<not> header_line_search l) (splitlines False s)))"
      and row: "row = row_of_line line"
    by (auto simp: iter_stats_table_row_eq)
  from line have "line \<in> set (dropWhile (\<lambda>l. \<not> header_line_search l) (splitlines False s))"
    and nb: "\<not> blank line"
    by (simp_all add: nonblank_lines_def)
  then have mem: "line \<in> set (splitlines False s)"
    by (auto dest: set_dropWhileD)
  from nb have ne: "str_split line \<noteq> []"
    by (simp add: str_split_empty_iff)
  have "length row = min 5 (length (str_split line)) + 1"
    by (simp add: row row_of_line_def min_def)
  with mem ne row show ?thesis
    by (auto simp: row_of_line_def)
qed

text \<open>The data line of the specification, after the title line, and its six fields.\<close>

theorem iter_stats_table_row_fields_witness:
  "[''12345'', ''0.020'', ''0.000'', ''0.045'', ''0.000'', ''module.py:10(compute)'']
     \<in> set (iter_stats_table_row title_and_row)
   \<and> str_split ''12345    0.020    0.000    0.045    0.000 module.py:10(compute)''
       = [''12345'', ''0.020'', ''0.000'', ''0.045'', ''0.000'', ''module.py:10(compute)'']"
proof -
  have rows: "iter_stats_table_row title_and_row
       = [[''ncalls'', ''tottime'', ''percall'', ''cumtime'', ''percall'', ''filename:lineno(function)''],
          [''12345'', ''0.020'', ''0.000'', ''0.045'', ''0.000'', ''module.py:10(compute)'']]"
    by (simp add: title_and_row_def title_line_def iter_stats_table_row_def eval_defs)
  then have mem: "[''12345'', ''0.020'', ''0.000'', ''0.045'', ''0.000'', ''module.py:10(compute)'']
     \<in> set (iter_stats_table_row title_and_row)"
    by simp
  have "str_split ''12345    0.020    0.000    0.045    0.000 module.py:10(compute)''
       = [''12345'', ''0.020'', ''0.000'', ''0.045'', ''0.000'', ''module.py:10(compute)'']"
    by (simp add: str_split_def isspace_def)
  with iter_stats_table_row_fields [OF mem] mem show ?thesis
    by simp
qed

text \<open>
  C5 as it is stated fails: the line \<open>foo bar\<close> after a header line gives a row of three
  fields, its two tokens and an empty last field.
\<close>

theorem iter_stats_table_row_six_fields_counterexample:
  "iter_stats_table_row short_row_report = [[''ncalls'', ''''], [''foo'', ''bar'', '''']]
   \<and> str_split ''foo bar'' = [''foo'', ''bar'']
   \<and> length (iter_stats_table_row short_row_report ! 1) = 3"
  by (simp add: short_row_report_def iter_stats_table_row_def eval_defs)



text \<open>
  C7. The link of \<open>get_updated_href\<close> is \<open>?\<close> followed by the \<open>key=value\<close> pairs of the
  updated dictionary, joined by \<open>&\<close>. The dictionary has every key once: the keys of the
  request and \<open>key\<close>. \<open>key\<close> has the value \<open>val\<close>, whatever it had before, and every other
  key has the value the request gives it (\<open>map_of (rev q)\<close>: the last one, when the
  query string repeats the key). Every pair of the dictionary occurs in the link.
\<close>

theorem get_updated_href_pairs:
  "get_updated_href q key val
     = ''?'' @ str_join ''&'' (map pair_text (AList.update key val (dict_of q)))
   \<and> distinct (map fst (AList.update key val (dict_of q)))
   \<and> map_of (AList.update key val (dict_of q)) = (map_of (rev q))(key \<mapsto> val)
   \<and> fst ` set (AList.update key val (dict_of q)) = insert key (fst ` set q)
   \<and> (\<forall>p \<in> set (AList.update key val (dict_of q)).
         sublist (pair_text p) (get_updated_href q key val))
   \<and> sublist (key @ ''='' @ val) (get_updated_href q key val)"
proof -
  let ?d = "AList.update key val (dict_of q)"
  have dist: "distinct (map fst ?d)"
    by (simp add: distinct_update dict_of_distinct)
  have "dom (map_of ?d) = insert key (dom (map_of (rev q)))"
    unfolding update_map_of by simp
  then have keys: "fst ` set ?d = insert key (fst ` set q)"
    by (simp add: dom_map_of_conv_image_fst)
  have each: "\<forall>p \<in> set ?d. sublist (pair_text p) (get_updated_href q key val)"
    by (blast intro: get_updated_href_contains)
  from get_updated_href_eq [of q key val] dist update_map_of [of key val q] keys each
    get_updated_href_own [of key val q]
  show ?thesis by blast
qed

text \<open>A request with \<open>a=1\<close>, a former \<open>func_name=old\<close> and \<open>b=2\<close>, and a click on \<open>foo\<close>.\<close>

theorem get_updated_href_pairs_witness:
  "get_updated_href [(''a'', ''1''), (''func_name'', ''old''), (''b'', ''2'')] ''func_name'' ''foo''
     = ''?a=1&func_name=foo&b=2''
   \<and> sublist ''a=1'' ''?a=1&func_name=foo&b=2''
   \<and> sublist ''b=2'' ''?a=1&func_name=foo&b=2''
   \<and> sublist ''func_name=foo'' ''?a=1&func_name=foo&b=2''"
proof -
  have d: "AList.update ''func_name'' ''foo''
             (dict_of [(''a'', ''1''), (''func_name'', ''old''), (''b'', ''2'')])
           = [(''a'', ''1''), (''func_name'', ''foo''), (''b'', ''2'')]"
    by (simp add: dict_of_def)
  note pairs = get_updated_href_pairs
         [of "[(''a'', ''1''), (''func_name'', ''old''), (''b'', ''2'')]" "''func_name''" "''foo''"]
  have eq: "get_updated_href [(''a'', ''1''), (''func_name'', ''old''), (''b'', ''2'')]
              ''func_name'' ''foo'' = ''?a=1&func_name=foo&b=2''"
    using pairs [THEN conjunct1] unfolding d by (simp add: pair_text_def)
  have "\<forall>p \<in> set [(''a'', ''1''), (''func_name'', ''foo''), (''b'', ''2'')].
          sublist (pair_text p) ''?a=1&func_name=foo&b=2''"
    using pairs [THEN conjunct2, THEN conjunct2, THEN conjunct2, THEN conjunct2, THEN conjunct1]
    unfolding d eq .
  then have "sublist ''a=1'' ''?a=1&func_name=foo&b=2''
      \<and> sublist ''b=2'' ''?a=1&func_name=foo&b=2''
      \<and> sublist ''func_name=foo'' ''?a=1&func_name=foo&b=2''"
    by (simp add: pair_text_def)
  with eq show ?thesis by blast
qed



text \<open>
  C9. \<open>read_stream\<close> returns the whole text of the stream and leaves the stream empty,
  at position 0, whatever it held. In a request the stream is new, and each report is
  read right after the backend wrote it, so each of the three texts of \<open>route_handler\<close>
  is made from its own report alone, and the stream is empty after the last read. The
  model is of one request at a time.
\<close>

theorem read_stream_drains:
  "read_stream st = (buf st, \<lparr>buf = [], pos = 0\<rparr>)
   \<and> read q (stream_write text \<lparr>buf = [], pos = 0\<rparr>) = (processed q text, \<lparr>buf = [], pos = 0\<rparr>)
   \<and> route_reports b q =
       (if query_get q FUNC_NAME_KEY \<noteq> []
        then processed q (print_callers b (query_get q FUNC_NAME_KEY)) else [],
        if query_get q FUNC_NAME_KEY \<noteq> []
        then processed q (print_callees b (query_get q FUNC_NAME_KEY)) else [],
        processed q (print_stats b (query_get q FUNC_NAME_KEY)),
        \<lparr>buf = [], pos = 0\<rparr>)"
  using read_stream_eq read_after_write route_reports_eq
  by (simp add: StringIO_def)

text \<open>A stream with text left in it, and the request for \<open>foo\<close> on the example backend.\<close>

theorem read_stream_drains_witness:
  "read_stream \<lparr>buf = ''left over'', pos = 4\<rparr> = (''left over'', \<lparr>buf = [], pos = 0\<rparr>)
   \<and> snd (snd (snd (route_reports example_backend example_query))) = \<lparr>buf = [], pos = 0\<rparr>
   \<and> fst (route_reports example_backend example_query) = []
   \<and> fst (snd (route_reports example_backend example_query))
       = processed example_query ''m.py:1(foo)  ->  1  0.000  0.000  m.py:2(bar)\<newline>''"
proof -
  have f: "query_get example_query FUNC_NAME_KEY = ''foo''"
    by (simp add: query_get_def example_query_def FUNC_NAME_KEY_def)
  from read_stream_drains [of "\<lparr>buf = ''left over'', pos = 4\<rparr>" example_query "[]" example_backend]
  show ?thesis
    unfolding f by (simp add: example_backend_def processed_def splitlines_def)
qed


end
